theory Spec2Isabelle
  imports Complex_Main "HOL-Library.Log_Nat"
begin

section \<open>Python values: exceptions and binary floating point\<close>

text \<open>
  The script is Python.  Its integers are unbounded (\<open>int\<close>), its \<open>float\<close> is an IEEE 754
  binary64 number.  Every finite binary64 value is a rational, so a float is modelled by the
  rational it denotes and every float operation rounds the exact result to the nearest
  number with a 53 bit significand, ties to the even significand.  The exceptions that the
  operations of the script can raise are the four below.
\<close>

datatype error = ValueError | KeyError | ZeroDivisionError | OverflowError

type_synonym pyfloat = rat

text \<open>Sequencing of computations that may raise: the first exception wins.\<close>

definition and_then :: "error + 'a \<Rightarrow> ('a \<Rightarrow> error + 'b) \<Rightarrow> error + 'b" where
  "and_then m f = (case m of Inl e \<Rightarrow> Inl e | Inr v \<Rightarrow> f v)"

text \<open>Round to the nearest integer, a tie goes to the even neighbour.\<close>

definition rhe :: "rat \<Rightarrow> int" where
  "rhe x = (let f = \<lfloor>x\<rfloor>; d = x - of_int f in
     if d < 1/2 then f else if 1/2 < d then f + 1 else if even f then f else f + 1)"

text \<open>The binary exponent \<open>\<lfloor>log\<^sub>2 \<bar>x\<bar>\<rfloor>\<close> of a non-zero rational.\<close>

definition ilog2 :: "rat \<Rightarrow> int" where
  "ilog2 x = (case quotient_of \<bar>x\<bar> of (p, q) \<Rightarrow>
     let d = bitlen p - bitlen q in if 2 powi d \<le> \<bar>x\<bar> then d else d - 1)"

text \<open>
  Rounding to binary64 in the normal range: the significand keeps 53 bits, so the unit in
  the last place of \<open>x\<close> is \<open>2 powi (ilog2 x - 52)\<close>.  The exponent range of binary64
  (overflow from \<open>2 ^ 1024\<close>, subnormals below \<open>2 powi (- 1022)\<close>) is written out at the one
  operation where the script can meet it, the true division of two integers.
\<close>

definition fl :: "rat \<Rightarrow> pyfloat" where
  "fl x = (if x = 0 then 0 else let u = 2 powi (ilog2 x - 52) in of_int (rhe (x / u)) * u)"

definition float_of_int :: "int \<Rightarrow> pyfloat" where
  "float_of_int n = fl (of_int n)"

definition fadd :: "pyfloat \<Rightarrow> pyfloat \<Rightarrow> pyfloat" where
  "fadd a b = fl (a + b)"

definition fmul :: "pyfloat \<Rightarrow> pyfloat \<Rightarrow> pyfloat" where
  "fmul a b = fl (a * b)"

text \<open>
  \<open>a / b\<close> on two Python integers: the correctly rounded quotient, \<open>ZeroDivisionError\<close> for
  a zero divisor, \<open>OverflowError\<close> when the rounded quotient is too large for a float.
  (A non-zero quotient of an integer by one of the script's divisors 50, 100, 1024, 5000 is
  at least \<open>1 / 5000\<close> in magnitude, far above the subnormal range.)
\<close>

definition truediv :: "int \<Rightarrow> int \<Rightarrow> error + pyfloat" where
  "truediv a b =
     (if b = 0 then Inl ZeroDivisionError
      else let q = fl (of_int a / of_int b)
           in if 2 ^ 1024 \<le> \<bar>q\<bar> then Inl OverflowError else Inr q)"

text \<open>\<open>math.ceil\<close> of a finite float is the exact integer ceiling of its value.\<close>

definition math_ceil :: "pyfloat \<Rightarrow> int" where
  "math_ceil x = \<lceil>x\<rceil>"

text \<open>
  \<open>round(x, 2)\<close> on a float: the exact value of \<open>x\<close> is rounded to two decimals, ties to
  even, and the decimal result is converted back to the nearest float.
\<close>

definition round2 :: "pyfloat \<Rightarrow> pyfloat" where
  "round2 x = fl (of_int (rhe (x * 100)) / 100)"

text \<open>\<open>min\<close> of a list raises \<open>ValueError\<close> on the empty list.\<close>

fun py_min :: "int list \<Rightarrow> error + int" where
  "py_min [] = Inl ValueError"
| "py_min (x # xs) = Inr (fold min xs x)"

text \<open>A dictionary literal is an association list; \<open>d[k]\<close> raises \<open>KeyError\<close>, \<open>d.get(k, v)\<close> does not.\<close>

definition getitem :: "('k \<times> 'v) list \<Rightarrow> 'k \<Rightarrow> error + 'v" where
  "getitem d k = (case map_of d k of None \<Rightarrow> Inl KeyError | Some v \<Rightarrow> Inr v)"

definition get_default :: "('k \<times> 'v) list \<Rightarrow> 'k \<Rightarrow> 'v \<Rightarrow> 'v" where
  "get_default d k v = (case map_of d k of None \<Rightarrow> v | Some w \<Rightarrow> w)"

section \<open>The pricing and sizing tables\<close>

definition ECS_CPU_PRICE_PER_VCPU_HOUR :: pyfloat where
  "ECS_CPU_PRICE_PER_VCPU_HOUR = fl (4048 / 100000)"

definition ECS_MEMORY_PRICE_PER_GB_HOUR :: pyfloat where
  "ECS_MEMORY_PRICE_PER_GB_HOUR = fl (4445 / 1000000)"

definition HOURS_PER_MONTH :: int where
  "HOURS_PER_MONTH = 730"

definition REDIS_HOURLY_PRICING :: "(string \<times> pyfloat) list" where
  "REDIS_HOURLY_PRICING =
     [(''cache.t3.micro'', fl (17 / 1000)),
      (''cache.t3.small'', fl (34 / 1000)),
      (''cache.t3.medium'', fl (68 / 1000)),
      (''cache.t3.large'', fl (136 / 1000)),
      (''cache.r6g.large'', fl (126 / 1000)),
      (''cache.r6g.xlarge'', fl (252 / 1000))]"

definition EFS_STORAGE_PRICE_PER_GB_MONTH :: pyfloat where
  "EFS_STORAGE_PRICE_PER_GB_MONTH = fl (30 / 100)"

definition EFS_BASELINE_STORAGE_GB :: int where
  "EFS_BASELINE_STORAGE_GB = 100"

definition NAT_GATEWAY_PRICE_PER_MONTH :: pyfloat where
  "NAT_GATEWAY_PRICE_PER_MONTH = fl (3240 / 100)"

definition ALB_BASE_PRICE_PER_MONTH :: pyfloat where
  "ALB_BASE_PRICE_PER_MONTH = fl (1620 / 100)"

definition GLOBAL_ACCELERATOR_PRICE_PER_MONTH :: pyfloat where
  "GLOBAL_ACCELERATOR_PRICE_PER_MONTH = fl (720 / 100)"

definition CPU_OPTIONS :: "int list" where
  "CPU_OPTIONS = [256, 512, 1024, 2048, 4096, 8192, 16384]"

definition CPU_MEMORY_MIN :: "(int \<times> int) list" where
  "CPU_MEMORY_MIN =
     [(256, 512), (512, 1024), (1024, 2048), (2048, 4096),
      (4096, 8192), (8192, 16384), (16384, 32768)]"

definition CPU_MEMORY_MAX :: "(int \<times> int) list" where
  "CPU_MEMORY_MAX =
     [(256, 2048), (512, 4096), (1024, 8192), (2048, 16384),
      (4096, 30720), (8192, 30720), (16384, 61440)]"

section \<open>Resource sizing\<close>

record resources =
  cpu_vcpu :: int
  cpu_units :: int
  memory_gb :: pyfloat
  memory_mb :: int
  desired_count :: int
  redis_node_type :: string
  redis_replica_count :: int
  efs_performance_mode :: string
  nat_gateway_count :: int
  enable_global_accelerator :: bool

text \<open>The \<open>if\<close>/\<open>elif\<close> chain that names the Redis node type, in the order of the source.\<close>

definition select_redis_node_type :: "int \<Rightarrow> string" where
  "select_redis_node_type player_capacity =
     (if player_capacity \<le> 500 then ''cache.t3.micro''
      else if player_capacity \<le> 2000 then ''cache.t3.small''
      else if player_capacity \<le> 5000 then ''cache.t3.medium''
      else if player_capacity \<le> 10000 then ''cache.t3.large''
      else if player_capacity \<le> 20000 then ''cache.r6g.large''
      else ''cache.r6g.xlarge'')"

text \<open>
  \<open>calculate_resources\<close>, statement by statement.  Each step that can raise is sequenced
  with \<open>and_then\<close>, so an exception leaves the function at the statement that raised it.
\<close>

definition calculate_resources :: "int \<Rightarrow> error + resources" where
  "calculate_resources player_capacity =
     and_then (truediv player_capacity 100) (\<lambda>q100.
     let cpu_vcpu = max 1 (math_ceil q100);
         cpu_units = cpu_vcpu * 1024
     in and_then (py_min (filter (\<lambda>cpu. cpu \<ge> cpu_units) CPU_OPTIONS)) (\<lambda>rounded_cpu.
     and_then (truediv player_capacity 50) (\<lambda>q50.
     let memory_gb = max 2 (math_ceil q50);
         memory_mb = memory_gb * 1024
     in and_then (getitem CPU_MEMORY_MIN rounded_cpu) (\<lambda>valid_memory_min.
     and_then (getitem CPU_MEMORY_MAX rounded_cpu) (\<lambda>valid_memory_max.
     let memory_mb = max valid_memory_min (min memory_mb valid_memory_max)
     in and_then (truediv memory_mb 1024) (\<lambda>memory_gb.
     let redis_node_type = select_redis_node_type player_capacity
     in and_then (truediv player_capacity 5000) (\<lambda>q5000.
     let redis_replica_count = max 0 (math_ceil q5000 - 1);
         efs_performance_mode = (if player_capacity \<ge> 5000 then ''maxIO'' else ''generalPurpose'');
         nat_gateway_count = (if player_capacity \<ge> 10000 then 2 else 1);
         enable_global_accelerator = (player_capacity \<ge> 1000)
     in and_then (if player_capacity < 5000 then Inr 1
                  else and_then (truediv player_capacity 5000) (\<lambda>q. Inr (max 2 (math_ceil q))))
          (\<lambda>desired_count.
     Inr \<lparr>cpu_vcpu = cpu_vcpu,
          cpu_units = rounded_cpu,
          memory_gb = memory_gb,
          memory_mb = memory_mb,
          desired_count = desired_count,
          redis_node_type = redis_node_type,
          redis_replica_count = redis_replica_count,
          efs_performance_mode = efs_performance_mode,
          nat_gateway_count = nat_gateway_count,
          enable_global_accelerator = enable_global_accelerator\<rparr>))))))))"

section \<open>Cost estimation\<close>

record costs =
  ecs :: pyfloat
  redis :: pyfloat
  efs :: pyfloat
  nat_gateways :: pyfloat
  alb :: pyfloat
  accelerator :: pyfloat
  total :: pyfloat

text \<open>
  The local variables of \<open>calculate_costs\<close>, the unrounded line items.  An integer operand
  of a float operation is first converted to a float; the products and sums associate to
  the left as in the source.  Every quantity of a configuration that \<open>calculate_resources\<close>
  returns is small (at most 16 vCPU and 32 GB), so the exponent range of binary64 plays no
  role in these products and sums.
\<close>

definition ecs_cost :: "resources \<Rightarrow> pyfloat" where
  "ecs_cost r =
     fmul (fmul (fadd (fmul (float_of_int (cpu_vcpu r)) ECS_CPU_PRICE_PER_VCPU_HOUR)
                      (fmul (memory_gb r) ECS_MEMORY_PRICE_PER_GB_HOUR))
                (float_of_int HOURS_PER_MONTH))
          (float_of_int (desired_count r))"

definition redis_hourly :: "resources \<Rightarrow> pyfloat" where
  "redis_hourly r = get_default REDIS_HOURLY_PRICING (redis_node_type r) (fl (17 / 1000))"

definition redis_cost :: "resources \<Rightarrow> pyfloat" where
  "redis_cost r =
     fmul (fmul (redis_hourly r) (float_of_int HOURS_PER_MONTH))
          (float_of_int (redis_replica_count r + 1))"

definition efs_cost :: pyfloat where
  "efs_cost = fmul (float_of_int EFS_BASELINE_STORAGE_GB) EFS_STORAGE_PRICE_PER_GB_MONTH"

definition nat_cost :: "resources \<Rightarrow> pyfloat" where
  "nat_cost r = fmul (float_of_int (nat_gateway_count r)) NAT_GATEWAY_PRICE_PER_MONTH"

definition alb_cost :: pyfloat where
  "alb_cost = ALB_BASE_PRICE_PER_MONTH"

definition accelerator_cost :: "resources \<Rightarrow> pyfloat" where
  "accelerator_cost r =
     (if enable_global_accelerator r then GLOBAL_ACCELERATOR_PRICE_PER_MONTH else 0)"

definition total_cost :: "resources \<Rightarrow> pyfloat" where
  "total_cost r =
     fadd (fadd (fadd (fadd (fadd (ecs_cost r) (redis_cost r)) efs_cost) (nat_cost r)) alb_cost)
          (accelerator_cost r)"

definition calculate_costs :: "resources \<Rightarrow> costs" where
  "calculate_costs r =
     \<lparr>ecs = round2 (ecs_cost r),
      redis = round2 (redis_cost r),
      efs = round2 efs_cost,
      nat_gateways = round2 (nat_cost r),
      alb = round2 alb_cost,
      accelerator = round2 (accelerator_cost r),
      total = round2 (total_cost r)\<rparr>"

section \<open>The command line\<close>

text \<open>
  \<open>int(s)\<close> on an argument string, for the ASCII strings a shell passes: surrounding
  white space is dropped, one sign is allowed, then decimal digits follow, where single
  underscores may separate digits.  \<open>None\<close> stands for the \<open>ValueError\<close> that \<open>int\<close> raises
  on anything else.  (Recent interpreters also raise \<open>ValueError\<close> on a numeral of more than
  4300 digits; here such an argument is an integer far outside the accepted range, and
  \<open>main\<close> ends with status 1 on either path.)
\<close>

definition is_space :: "char \<Rightarrow> bool" where
  "is_space c =
     (c \<in> set [CHR 0x09, CHR 0x0A, CHR 0x0B, CHR 0x0C, CHR 0x0D,
                CHR 0x1C, CHR 0x1D, CHR 0x1E, CHR 0x1F, CHR '' ''])"

definition strip :: "string \<Rightarrow> string" where
  "strip s = rev (dropWhile is_space (rev (dropWhile is_space s)))"

definition digit_value :: "char \<Rightarrow> int option" where
  "digit_value c =
     map_of [(CHR ''0'', 0), (CHR ''1'', 1), (CHR ''2'', 2), (CHR ''3'', 3), (CHR ''4'', 4),
             (CHR ''5'', 5), (CHR ''6'', 6), (CHR ''7'', 7), (CHR ''8'', 8), (CHR ''9'', 9)] c"

fun parse_digits :: "string \<Rightarrow> int \<Rightarrow> bool \<Rightarrow> int option" where
  "parse_digits [] acc after_digit = (if after_digit then Some acc else None)"
| "parse_digits (c # cs) acc after_digit =
     (case digit_value c of
        Some d \<Rightarrow> parse_digits cs (10 * acc + d) True
      | None \<Rightarrow>
          if c = CHR ''_'' \<and> after_digit \<and> cs \<noteq> [] then parse_digits cs acc False
          else None)"

definition py_int :: "string \<Rightarrow> int option" where
  "py_int s =
     (case strip s of
        [] \<Rightarrow> None
      | c # cs \<Rightarrow>
          if c = CHR ''-'' then map_option uminus (parse_digits cs 0 False)
          else if c = CHR ''+'' then parse_digits cs 0 False
          else parse_digits (c # cs) 0 False)"

text \<open>
  What a run of the script leaves behind.  The text that is printed is kept abstract: one
  constructor for each of the five things \<open>main\<close> can print, carrying the values that the
  text is formatted from.  A run ends by \<open>sys.exit(1)\<close>, by falling off the end of \<open>main\<close>
  (status 0), or with an exception that nothing catches: then the interpreter writes a
  traceback to standard error and the status is 1.
\<close>

datatype message =
    Usage
  | InvalidCapacity string
  | OutOfRange
  | JsonDocument int resources costs
  | Report int resources costs

datatype outcome = Exited int "message list" | Uncaught error

fun exit_code :: "outcome \<Rightarrow> int" where
  "exit_code (Exited n out) = n"
| "exit_code (Uncaught e) = 1"

fun printed :: "outcome \<Rightarrow> message list" where
  "printed (Exited n out) = out"
| "printed (Uncaught e) = []"

fun is_result :: "message \<Rightarrow> bool" where
  "is_result (JsonDocument n r c) = True"
| "is_result (Report n r c) = True"
| "is_result other = False"

text \<open>\<open>main\<close> on \<open>sys.argv\<close>, the script's name first.\<close>

definition main :: "string list \<Rightarrow> outcome" where
  "main argv =
     (if length argv < 2 then Exited 1 [Usage]
      else case py_int (argv ! 1) of
        None \<Rightarrow> Exited 1 [InvalidCapacity (argv ! 1)]
      | Some player_capacity \<Rightarrow>
          if player_capacity < 100 \<or> player_capacity > 50000 then Exited 1 [OutOfRange]
          else
            let json_output = (''--json'' \<in> set argv)
            in case calculate_resources player_capacity of
                 Inl e \<Rightarrow> Uncaught e
               | Inr resources \<Rightarrow>
                   let costs = calculate_costs resources
                   in if json_output
                      then Exited 0 [JsonDocument player_capacity resources costs]
                      else Exited 0 [Report player_capacity resources costs])"

section \<open>Properties of the floating-point operations\<close>

text \<open>
  Rounding moves a value by at most half a unit in the last place, keeps its sign, and leaves
  integers and dyadic fractions with a significand below \<open>2 ^ 53\<close> unchanged.  Hence the
  ceiling of a rounded quotient of integers of moderate size is the ceiling of the exact
  quotient, which is what the sizing rules rely on.
\<close>

lemma rhe_err: "\<bar>of_int (rhe y) - y\<bar> \<le> 1/2"
proof -
  have "of_int \<lfloor>y\<rfloor> \<le> y" "y < of_int \<lfloor>y\<rfloor> + 1" by linarith+
  then show ?thesis unfolding rhe_def Let_def by (auto simp: abs_le_iff)
qed

lemma rhe_of_int: "rhe (of_int n) = n"
  by (simp add: rhe_def)


lemma rhe_mono_lb: "of_int n \<le> y \<Longrightarrow> n \<le> rhe y"
proof -
  assume "of_int n \<le> y"
  then have "n \<le> \<lfloor>y\<rfloor>" by (simp add: le_floor_iff)
  then show ?thesis unfolding rhe_def Let_def by auto
qed

lemma rhe_mono_ub: "y \<le> of_int n \<Longrightarrow> rhe y \<le> n"
proof -
  assume a: "y \<le> of_int n"
  show ?thesis
  proof (cases "y = of_int n")
    case True then show ?thesis by (simp add: rhe_of_int)
  next
    case False
    with a have "y < of_int n" by simp
    then have "\<lfloor>y\<rfloor> < n" by (simp add: floor_less_iff)
    then show ?thesis unfolding rhe_def Let_def by auto
  qed
qed

lemma bitlen_rat_bounds:
  assumes "0 < p"
  shows "2 powi (bitlen p - 1) \<le> (of_int p :: rat)" "(of_int p :: rat) < 2 powi (bitlen p)"
proof -
  from bitlen_bounds[OF assms] have a: "2 ^ nat (bitlen p - 1) \<le> p" and b: "p < 2 ^ nat (bitlen p)"
    by auto
  have pos: "1 \<le> bitlen p" using assms by (auto simp: bitlen_alt_def)
  have "(of_int (2 ^ nat (bitlen p - 1)) :: rat) \<le> of_int p" using a by (simp only: of_int_le_iff)
  then show "2 powi (bitlen p - 1) \<le> (of_int p :: rat)" using pos by (simp add: power_int_def)
  have "(of_int p :: rat) < of_int (2 ^ nat (bitlen p))" using b by (simp only: of_int_less_iff)
  then show "(of_int p :: rat) < 2 powi (bitlen p)" using pos by (simp add: power_int_def)
qed

lemma ilog2_bounds:
  assumes "x \<noteq> 0"
  shows "2 powi (ilog2 x) \<le> \<bar>x\<bar>" "\<bar>x\<bar> < 2 powi (ilog2 x + 1)"
proof -
  obtain p q where pq: "quotient_of \<bar>x\<bar> = (p, q)" by (cases "quotient_of \<bar>x\<bar>")
  have q: "0 < q" using pq by (rule quotient_of_denom_pos)
  have x: "\<bar>x\<bar> = of_int p / of_int q" using pq by (rule quotient_of_div)
  have "0 < \<bar>x\<bar>" using assms by simp
  then have p: "0 < p" using q unfolding x by (simp add: zero_less_divide_iff)
  define d where "d = bitlen p - bitlen q"
  have il: "ilog2 x = (if 2 powi d \<le> \<bar>x\<bar> then d else d - 1)"
    by (simp add: ilog2_def pq d_def Let_def)
  have lo: "2 powi (d - 1) \<le> \<bar>x\<bar>"
  proof -
    have "2 powi (d - 1) = (2 powi (bitlen p - 1) :: rat) / 2 powi (bitlen q)"
      by (simp add: d_def power_int_diff)
    also have "\<dots> \<le> of_int p / of_int q"
      using bitlen_rat_bounds(1)[OF p] bitlen_rat_bounds(2)[OF q] q p
      by (intro frac_le) auto
    finally show ?thesis by (simp add: x)
  qed
  have hi: "\<bar>x\<bar> < 2 powi (d + 1)"
  proof -
    have "of_int p / of_int q < (2 powi (bitlen p) :: rat) / 2 powi (bitlen q - 1)"
      using bitlen_rat_bounds(2)[OF p] bitlen_rat_bounds(1)[OF q] q p
      by (intro frac_less) auto
    also have "\<dots> = 2 powi (d + 1)"
      by (simp add: d_def power_int_diff power_int_add)
    finally show ?thesis by (simp add: x)
  qed
  show "2 powi (ilog2 x) \<le> \<bar>x\<bar>" using lo by (simp add: il)
  show "\<bar>x\<bar> < 2 powi (ilog2 x + 1)" using hi by (auto simp add: il)
qed

lemma two_powi_less_cancel: "(2::rat) powi a < 2 powi b \<Longrightarrow> a < b"
  using power_int_increasing[of b a "2::rat"] by (cases "a < b") auto

lemma ilog2_unique:
  assumes "2 powi k \<le> \<bar>x\<bar>" "\<bar>x\<bar> < 2 powi (k + 1)"
  shows "ilog2 x = k"
proof -
  have "(0::rat) < 2 powi k" by simp
  then have "0 < \<bar>x\<bar>" using assms(1) by (rule less_le_trans)
  then have nz: "x \<noteq> 0" by simp
  note b = ilog2_bounds[OF nz]
  have "(2::rat) powi k < 2 powi (ilog2 x + 1)" using assms(1) b(2) by simp
  then have 1: "k < ilog2 x + 1" by (rule two_powi_less_cancel)
  have "(2::rat) powi (ilog2 x) < 2 powi (k + 1)" using assms(2) b(1) by simp
  then have 2: "ilog2 x < k + 1" by (rule two_powi_less_cancel)
  from 1 2 show ?thesis by simp
qed


lemma fl_err: "\<bar>fl x - x\<bar> \<le> \<bar>x\<bar> / 2 ^ 53"
proof (cases "x = 0")
  case True then show ?thesis by (simp add: fl_def)
next
  case False
  define u :: rat where "u = 2 powi (ilog2 x - 52)"
  have u: "0 < u" by (simp add: u_def)
  have "fl x - x = (of_int (rhe (x / u)) - x / u) * u"
    using False u by (simp add: fl_def u_def[symmetric] Let_def algebra_simps)
  then have "\<bar>fl x - x\<bar> = \<bar>of_int (rhe (x / u)) - x / u\<bar> * u"
    using u by (simp add: abs_mult)
  also have "\<dots> \<le> 1/2 * u" using rhe_err[of "x / u"] u by (intro mult_right_mono) auto
  also have "\<dots> = 2 powi (ilog2 x) / 2 ^ 53"
    by (simp add: u_def power_int_diff)
  also have "\<dots> \<le> \<bar>x\<bar> / 2 ^ 53" using ilog2_bounds(1)[OF False] by (simp add: divide_right_mono)
  finally show ?thesis .
qed



lemma fl_dyadic:
  assumes "\<bar>n\<bar> < 2 ^ 53"
  shows "fl (of_int n / 2 ^ k) = of_int n / 2 ^ k"
proof (cases "n = 0")
  case True then show ?thesis by (simp add: fl_def)
next
  case False
  define x :: rat where "x = of_int n / 2 ^ k"
  have nz: "x \<noteq> 0" using False by (simp add: x_def)
  define e where "e = ilog2 x - 52"
  have "\<bar>x\<bar> = of_int \<bar>n\<bar> / 2 ^ k" by (simp add: x_def abs_divide del: of_int_abs)
  also have "\<dots> < of_int (2 ^ 53) / 2 ^ k"
    using assms by (intro divide_strict_right_mono) (simp_all only: of_int_less_iff zero_less_power zero_less_numeral)
  also have "\<dots> = 2 powi (53 - int k)" by (simp add: power_int_diff)
  finally have "\<bar>x\<bar> < 2 powi (53 - int k)" .
  with ilog2_bounds(1)[OF nz] have "(2::rat) powi (ilog2 x) < 2 powi (53 - int k)" by simp
  then have "ilog2 x < 53 - int k" by (rule two_powi_less_cancel)
  then have ek: "0 \<le> - int k - e" by (simp add: e_def)
  have "x / 2 powi e = of_int n * 2 powi (- int k - e)"
    by (simp add: x_def power_int_diff power_int_minus field_simps)
  also have "\<dots> = of_int (n * 2 ^ nat (- int k - e))"
    using ek by (simp add: power_int_def)
  finally have xi: "x / 2 powi e = of_int (n * 2 ^ nat (- int k - e))" .
  have "fl x = of_int (rhe (x / 2 powi e)) * 2 powi e"
    using nz by (simp add: fl_def e_def Let_def)
  also have "\<dots> = (x / 2 powi e) * 2 powi e"
    by (simp only: xi rhe_of_int)
  also have "\<dots> = x" by simp
  finally show ?thesis by (simp add: x_def)
qed

lemma fl_of_int: "\<bar>n\<bar> < 2 ^ 53 \<Longrightarrow> fl (of_int n) = of_int n"
  using fl_dyadic[of n 0] by simp

lemma ceiling_fl_divide:
  assumes d: "0 < d" and c: "\<bar>c\<bar> < 2 ^ 53"
  shows "\<lceil>fl (of_int c / of_int d)\<rceil> = \<lceil>(of_int c / of_int d :: rat)\<rceil>"
proof (cases "d dvd c")
  case True
  then obtain k where k: "c = d * k" by (auto simp: dvd_def)
  have "1 * \<bar>k\<bar> \<le> d * \<bar>k\<bar>" using d by (intro mult_right_mono) auto
  then have "\<bar>k\<bar> \<le> \<bar>c\<bar>" using d by (simp add: k abs_mult)
  then have kb: "\<bar>k\<bar> < 2 ^ 53" using c by simp
  have "(of_int c / of_int d :: rat) = of_int k" using d by (simp add: k)
  then show ?thesis using fl_of_int[OF kb] by simp
next
  case False
  define x :: rat where "x = of_int c / of_int d"
  define m where "m = c div d"
  define r where "r = c mod d"
  have r: "0 < r" "r < d" using False d by (auto simp: r_def dvd_eq_mod_eq_0 intro: le_neq_trans)
  have cx: "c = m * d + r" by (simp add: m_def r_def)
  have x: "x = of_int m + of_int r / of_int d" using d by (simp add: x_def cx field_simps)
  have lo: "of_int m + 1 / of_int d \<le> x"
    using r d unfolding x by (simp add: divide_right_mono)
  have "of_int r \<le> (of_int d - 1 :: rat)" using r by (metis of_int_1 of_int_diff of_int_le_iff zle_diff1_eq)
  then have "of_int r / of_int d \<le> (of_int d - 1 :: rat) / of_int d" using d by (simp add: divide_right_mono)
  moreover have "(of_int d - 1 :: rat) / of_int d = 1 - 1 / of_int d"
    using d by (simp add: diff_divide_distrib)
  ultimately have hi: "x \<le> of_int m + 1 - 1 / of_int d"
    unfolding x by linarith
  have "\<bar>x\<bar> = of_int \<bar>c\<bar> / of_int d" using d by (simp add: x_def abs_divide del: of_int_abs)
  also have "\<dots> < of_int (2 ^ 53) / of_int d"
    using c d by (intro divide_strict_right_mono) (simp_all only: of_int_less_iff)
  finally have "\<bar>x\<bar> / 2 ^ 53 < 1 / of_int d" using d by (simp add: field_simps)
  with fl_err[of x] have e: "\<bar>fl x - x\<bar> < 1 / of_int d" by simp
  have 1: "of_int m < fl x" using e lo by linarith
  have 2: "fl x < of_int m + 1" using e hi by linarith
  have "\<lceil>fl x\<rceil> = m + 1" using 1 2 by (simp add: ceiling_unique)
  moreover have dp: "(0::rat) < 1 / of_int d" using d by simp
  have "of_int m < x" "x < of_int m + 1" using lo hi dp by linarith+
  then have "\<lceil>x\<rceil> = m + 1" by (simp add: ceiling_unique)
  ultimately show ?thesis by (simp add: x_def)
qed


lemma fl_nonpos: "x \<le> 0 \<Longrightarrow> fl x \<le> 0"
proof -
  assume x: "x \<le> 0"
  have "rhe (x / 2 powi (ilog2 x - 52)) \<le> 0"
    using x by (intro rhe_mono_ub) (simp add: divide_nonpos_pos)
  then have "of_int (rhe (x / 2 powi (ilog2 x - 52))) * (2::rat) powi (ilog2 x - 52) \<le> 0"
    by (intro mult_nonpos_nonneg) simp_all
  then show ?thesis by (simp add: fl_def Let_def)
qed

lemma fl_lower: "0 \<le> x \<Longrightarrow> x - x / 2 ^ 53 \<le> fl x"
proof -
  assume "0 \<le> x"
  define e where "e = x / 2 ^ 53"
  have "\<bar>fl x - x\<bar> \<le> e" using fl_err[of x] \<open>0 \<le> x\<close> by (simp add: e_def)
  then have "x - e \<le> fl x" by linarith
  then show ?thesis by (simp only: e_def)
qed

lemma fl_abs_upper: "\<bar>fl x\<bar> \<le> 2 * \<bar>x\<bar>"
proof -
  have "\<bar>fl x\<bar> \<le> \<bar>fl x - x\<bar> + \<bar>x\<bar>" by linarith
  also have "\<dots> \<le> \<bar>x\<bar> / 2 ^ 53 + \<bar>x\<bar>" using fl_err[of x] by simp
  also have "\<dots> \<le> 2 * \<bar>x\<bar>" by (simp add: field_simps)
  finally show ?thesis .
qed

lemma truediv_cases:
  "truediv a b = Inl ZeroDivisionError \<or> truediv a b = Inl OverflowError
   \<or> truediv a b = Inr (fl (of_int a / of_int b))"
  by (simp add: truediv_def Let_def)

lemma truediv_small:
  assumes "b \<noteq> 0" "\<bar>a\<bar> < 2 ^ 53"
  shows "truediv a b = Inr (fl (of_int a / of_int b))"
proof -
  define x :: rat where "x = of_int a / of_int b"
  have b1: "(1::rat) \<le> \<bar>of_int b\<bar>" using assms(1) by (metis abs_zero of_int_abs of_int_1 of_int_le_iff zero_less_abs_iff zless_imp_add1_zle add_0)
  have "\<bar>x\<bar> = \<bar>of_int a\<bar> / \<bar>of_int b\<bar>" by (simp add: x_def)
  also have "\<dots> \<le> \<bar>of_int a\<bar> / 1" using b1 by (intro divide_left_mono) auto
  also have "\<dots> < 2 ^ 53" using assms(2) by (metis div_by_1 of_int_abs of_int_less_numeral_power_cancel_iff)
  finally have "\<bar>x\<bar> < 2 ^ 53" .
  with fl_abs_upper[of x] have "\<bar>fl x\<bar> < 2 * 2 ^ 53" by linarith
  also have "\<dots> \<le> (2::rat) ^ 1024" by (simp add: power_increasing[of 54 1024 "2::rat", simplified])
  finally show ?thesis using assms(1) by (simp add: truediv_def Let_def x_def)
qed


lemma math_ceil_truediv:
  assumes "0 < b" "\<bar>a\<bar> < 2 ^ 53"
  shows "math_ceil (fl (of_int a / of_int b)) = - (- a div b)"
  unfolding math_ceil_def ceiling_fl_divide[OF assms] by (simp add: ceiling_divide_eq_div)

section \<open>What \<open>calculate_resources\<close> computes\<close>

text \<open>
  The function returns a configuration exactly for capacities up to 1600.  There the
  requested memory never exceeds the minimum of the selected tier, so the clamp always
  yields that minimum, twice the number of CPU units.  Above 1600 the list of sufficient
  CPU options is empty and \<open>min\<close> raises.
\<close>

lemma py_min_tier:
  assumes "1 \<le> v" "v \<le> 16"
  shows "py_min (filter (\<lambda>cpu. cpu \<ge> v * 1024) CPU_OPTIONS) =
           Inr (if v \<le> 1 then 1024 else if v \<le> 2 then 2048 else if v \<le> 4 then 4096
                else if v \<le> 8 then 8192 else 16384)"
  using assms by (simp add: CPU_OPTIONS_def)

lemma py_min_no_tier:
  assumes "16 < v"
  shows "py_min (filter (\<lambda>cpu. cpu \<ge> v * 1024) CPU_OPTIONS) = Inl ValueError"
  using assms by (simp add: CPU_OPTIONS_def)

lemma truediv_1024:
  assumes "\<bar>m\<bar> < 2 ^ 53"
  shows "truediv m 1024 = Inr (of_int m / 1024)"
  using truediv_small[of 1024 m] fl_dyadic[of m 10] assms by simp


lemma getitem_min_tier:
  "getitem CPU_MEMORY_MIN
     (if v \<le> 1 then 1024 else if v \<le> 2 then 2048 else if v \<le> 4 then 4096
      else if v \<le> 8 then 8192 else (16384::int)) =
   Inr (2 * (if v \<le> 1 then 1024 else if v \<le> 2 then 2048 else if v \<le> 4 then 4096
             else if v \<le> 8 then 8192 else 16384))"
  by (simp add: getitem_def CPU_MEMORY_MIN_def)

lemma getitem_max_tier:
  "\<exists>mx. getitem CPU_MEMORY_MAX
     (if v \<le> 1 then 1024 else if v \<le> 2 then 2048 else if v \<le> 4 then 4096
      else if v \<le> 8 then 8192 else (16384::int)) = Inr mx"
  by (simp add: getitem_def CPU_MEMORY_MAX_def)

lemma sizing_core:
  assumes q1: "truediv c 100 = Inr q1" and v: "max 1 (math_ceil q1) = v" "1 \<le> v" "v \<le> 16"
    and q2: "truediv c 50 = Inr q2" and g: "max 2 (math_ceil q2) \<le> 2 * v"
    and q3: "truediv c 5000 = Inr q3" "math_ceil q3 \<le> 1" and c: "c < 5000"
  shows "calculate_resources c =
     Inr \<lparr>cpu_vcpu = v,
          cpu_units = (if v \<le> 1 then 1024 else if v \<le> 2 then 2048 else if v \<le> 4 then 4096
                       else if v \<le> 8 then 8192 else 16384),
          memory_gb = of_int (2 * (if v \<le> 1 then 1024 else if v \<le> 2 then 2048
                       else if v \<le> 4 then 4096 else if v \<le> 8 then 8192 else 16384)) / 1024,
          memory_mb = 2 * (if v \<le> 1 then 1024 else if v \<le> 2 then 2048 else if v \<le> 4 then 4096
                       else if v \<le> 8 then 8192 else 16384),
          desired_count = 1,
          redis_node_type = select_redis_node_type c,
          redis_replica_count = 0,
          efs_performance_mode = ''generalPurpose'',
          nat_gateway_count = 1,
          enable_global_accelerator = (c \<ge> 1000)\<rparr>"
proof -
  define T :: int where "T = (if v \<le> 1 then 1024 else if v \<le> 2 then 2048 else if v \<le> 4 then 4096
                       else if v \<le> 8 then 8192 else 16384)"
  have T: "v * 1024 \<le> T" "T \<le> 16384" "0 < T" using v(2,3) by (auto simp: T_def)
  have tier: "py_min (filter (\<lambda>cpu. cpu \<ge> v * 1024) CPU_OPTIONS) = Inr T"
    unfolding T_def using v(2,3) by (rule py_min_tier)
  have mn: "getitem CPU_MEMORY_MIN T = Inr (2 * T)" unfolding T_def by (rule getitem_min_tier)
  obtain mx where mx: "getitem CPU_MEMORY_MAX T = Inr mx"
    using getitem_max_tier[of v] unfolding T_def by blast
  have "max 2 (math_ceil q2) * 1024 \<le> 2 * T" using g T(1) by linarith
  then have clamp: "max (2 * T) (min (max 2 (math_ceil q2) * 1024) mx) = 2 * T" by simp
  have "\<bar>2 * T\<bar> < 2 ^ 53" using T by simp
  then have gb: "truediv (2 * T) 1024 = Inr (of_int (2 * T) / 1024)" by (rule truediv_1024)
  have rep: "max 0 (math_ceil q3 - 1) = 0" using q3(2) by simp
  show ?thesis
    unfolding T_def[symmetric]
    using c by (simp add: calculate_resources_def and_then_def Let_def q1 v(1) tier q2 mn mx clamp gb q3(1) rep)
qed


lemma calculate_resources_supported:
  assumes "- (2 ^ 53) < c" "c \<le> 1600"
  shows "calculate_resources c =
     Inr \<lparr>cpu_vcpu = max 1 (- (- c div 100)),
          cpu_units = (if c \<le> 100 then 1024 else if c \<le> 200 then 2048 else if c \<le> 400 then 4096
                       else if c \<le> 800 then 8192 else 16384),
          memory_gb = of_int (2 * (if c \<le> 100 then 1024 else if c \<le> 200 then 2048
                       else if c \<le> 400 then 4096 else if c \<le> 800 then 8192 else 16384)) / 1024,
          memory_mb = 2 * (if c \<le> 100 then 1024 else if c \<le> 200 then 2048 else if c \<le> 400 then 4096
                       else if c \<le> 800 then 8192 else 16384),
          desired_count = 1,
          redis_node_type = select_redis_node_type c,
          redis_replica_count = 0,
          efs_performance_mode = ''generalPurpose'',
          nat_gateway_count = 1,
          enable_global_accelerator = (c \<ge> 1000)\<rparr>"
proof -
  have small: "\<bar>c\<bar> < 2 ^ 53" using assms by simp
  define v where "v = max 1 (- (- c div 100))"
  have q1: "truediv c 100 = Inr (fl (of_int c / 100))" using truediv_small[of 100 c] small by simp
  have c1: "math_ceil (fl (of_int c / 100)) = - (- c div 100)"
    using math_ceil_truediv[of 100 c] small by simp
  have q2: "truediv c 50 = Inr (fl (of_int c / 50))" using truediv_small[of 50 c] small by simp
  have c2: "math_ceil (fl (of_int c / 50)) = - (- c div 50)"
    using math_ceil_truediv[of 50 c] small by simp
  have q3: "truediv c 5000 = Inr (fl (of_int c / 5000))" using truediv_small[of 5000 c] small by simp
  have c3: "math_ceil (fl (of_int c / 5000)) = - (- c div 5000)"
    using math_ceil_truediv[of 5000 c] small by simp
  have v1: "max 1 (math_ceil (fl (of_int c / 100))) = v" by (simp add: c1 v_def)
  have vb: "1 \<le> v" "v \<le> 16" using assms(2) by (auto simp: v_def)
  have g: "max 2 (math_ceil (fl (of_int c / 50))) \<le> 2 * v" unfolding c2 v_def by linarith
  have r: "math_ceil (fl (of_int c / 5000)) \<le> 1" unfolding c3 using assms(2) by linarith
  have tiers: "v \<le> 1 \<longleftrightarrow> c \<le> 100" "v \<le> 2 \<longleftrightarrow> c \<le> 200" "v \<le> 4 \<longleftrightarrow> c \<le> 400" "v \<le> 8 \<longleftrightarrow> c \<le> 800"
    unfolding v_def by linarith+
  have core: "c < 5000" using assms(2) by simp
  show ?thesis
    using sizing_core[OF q1 v1 vb q2 g q3 r core] unfolding tiers unfolding v_def by simp
qed

lemma calculate_resources_no_tier:
  assumes "1600 < c" and q: "truediv c 100 = Inr (fl (of_int c / 100))"
  shows "calculate_resources c = Inl ValueError"
proof -
  define x :: rat where "x = of_int c / 100"
  have "1601 \<le> c" using assms(1) by simp
  then have "(of_int 1601 :: rat) \<le> of_int c" by (simp only: of_int_le_iff)
  then have x: "1601 / 100 \<le> x" by (simp add: x_def)
  have "16 < (1601 / 100 :: rat) * (1 - 1 / 2 ^ 53)" by simp
  also have "\<dots> \<le> x * (1 - 1 / 2 ^ 53)" using x by (intro mult_right_mono) simp_all
  also have "\<dots> = x - x / 2 ^ 53" by (simp add: algebra_simps)
  also have "\<dots> \<le> fl x" using x by (intro fl_lower) simp
  finally have "16 < fl x" .
  then have "16 < math_ceil (fl x)" by (simp add: math_ceil_def less_ceiling_iff)
  then have "16 < max 1 (math_ceil (fl x))" by simp
  then have "py_min (filter (\<lambda>cpu. cpu \<ge> max 1 (math_ceil (fl x)) * 1024) CPU_OPTIONS) = Inl ValueError"
    by (rule py_min_no_tier)
  then show ?thesis using q by (simp add: calculate_resources_def and_then_def Let_def x_def)
qed

lemma calculate_resources_unsupported:
  assumes "1600 < c"
  shows "calculate_resources c = Inl ValueError \<or> calculate_resources c = Inl OverflowError"
proof -
  have "truediv c 100 = Inl OverflowError \<or> truediv c 100 = Inr (fl (of_int c / 100))"
    by (simp add: truediv_def Let_def)
  then show ?thesis
  proof
    assume "truediv c 100 = Inl OverflowError"
    then show ?thesis by (simp add: calculate_resources_def and_then_def)
  next
    assume "truediv c 100 = Inr (fl (of_int c / 100))"
    with assms show ?thesis by (simp add: calculate_resources_no_tier)
  qed
qed

lemma calculate_resources_unsupported_small:
  assumes "1600 < c" "c < 2 ^ 53"
  shows "calculate_resources c = Inl ValueError"
proof -
  have "\<bar>c\<bar> < 2 ^ 53" using assms by simp
  then have "truediv c 100 = Inr (fl (of_int c / 100))" using truediv_small[of 100 c] by simp
  with assms(1) show ?thesis by (rule calculate_resources_no_tier)
qed


lemma math_ceil_fl_nonpos:
  assumes "c \<le> 0" "0 < b"
  shows "math_ceil (fl (of_int c / of_int b)) \<le> 0"
proof -
  have "(of_int c / of_int b :: rat) \<le> 0" using assms by (simp add: divide_nonpos_pos)
  then have "fl (of_int c / of_int b) \<le> 0" by (rule fl_nonpos)
  then show ?thesis by (simp add: math_ceil_def ceiling_le_iff)
qed

lemma calculate_resources_nonpos:
  assumes "c \<le> 0"
  shows "calculate_resources c = Inl OverflowError \<or>
         calculate_resources c =
           Inr \<lparr>cpu_vcpu = 1, cpu_units = 1024, memory_gb = 2, memory_mb = 2048,
                desired_count = 1, redis_node_type = ''cache.t3.micro'',
                redis_replica_count = 0, efs_performance_mode = ''generalPurpose'',
                nat_gateway_count = 1, enable_global_accelerator = False\<rparr>"
proof -
  have d1: "truediv c 100 = Inl OverflowError \<or> truediv c 100 = Inr (fl (of_int c / 100))"
    by (simp add: truediv_def Let_def)
  have d2: "truediv c 50 = Inl OverflowError \<or> truediv c 50 = Inr (fl (of_int c / 50))"
    by (simp add: truediv_def Let_def)
  have d3: "truediv c 5000 = Inl OverflowError \<or> truediv c 5000 = Inr (fl (of_int c / 5000))"
    by (simp add: truediv_def Let_def)
  have c1: "max 1 (math_ceil (fl (of_int c / 100))) = 1"
    using math_ceil_fl_nonpos[OF assms, of 100] by simp
  have c2: "max 2 (math_ceil (fl (of_int c / 50))) = 2"
    using math_ceil_fl_nonpos[OF assms, of 50] by simp
  have c3: "math_ceil (fl (of_int c / 5000)) \<le> 0"
    using math_ceil_fl_nonpos[OF assms, of 5000] by simp
  have tier: "py_min (filter (\<lambda>cpu. cpu \<ge> 1 * 1024) CPU_OPTIONS) = Inr 1024"
    using py_min_tier[of 1] by simp
  have mn: "getitem CPU_MEMORY_MIN 1024 = Inr 2048" by (simp add: getitem_def CPU_MEMORY_MIN_def)
  have mx: "getitem CPU_MEMORY_MAX 1024 = Inr 8192" by (simp add: getitem_def CPU_MEMORY_MAX_def)
  have gb: "truediv 2048 1024 = Inr 2" using truediv_1024[of 2048] by simp
  show ?thesis
  proof (cases "truediv c 100 = Inl OverflowError")
    case True
    then show ?thesis by (simp add: calculate_resources_def and_then_def)
  next
    case False
    with d1 have q1: "truediv c 100 = Inr (fl (of_int c / 100))" by simp
    show ?thesis
    proof (cases "truediv c 50 = Inl OverflowError")
      case True
      then show ?thesis using tier
        by (simp add: calculate_resources_def and_then_def Let_def q1 c1)
    next
      case False
      with d2 have q2: "truediv c 50 = Inr (fl (of_int c / 50))" by simp
      show ?thesis
      proof (cases "truediv c 5000 = Inl OverflowError")
        case True
        then show ?thesis using tier
          by (simp add: calculate_resources_def and_then_def Let_def q1 c1 q2 c2 mn mx gb)
      next
        case False
        with d3 have q3: "truediv c 5000 = Inr (fl (of_int c / 5000))" by simp
        have r: "math_ceil (fl (of_int c / 5000)) \<le> 1" using c3 by simp
        have "calculate_resources c =
           Inr \<lparr>cpu_vcpu = 1, cpu_units = 1024, memory_gb = 2, memory_mb = 2048,
                desired_count = 1, redis_node_type = select_redis_node_type c,
                redis_replica_count = 0, efs_performance_mode = ''generalPurpose'',
                nat_gateway_count = 1, enable_global_accelerator = (c \<ge> 1000)\<rparr>"
          using sizing_core[OF q1 c1 _ _ q2 _ q3 r] assms c2 by simp
        then show ?thesis using assms by (simp add: select_redis_node_type_def)
      qed
    qed
  qed
qed

lemma calculate_resources_Inr:
  assumes "calculate_resources c = Inr r"
  shows "c \<le> 1600"
    and "r = \<lparr>cpu_vcpu = max 1 (- (- c div 100)),
          cpu_units = (if c \<le> 100 then 1024 else if c \<le> 200 then 2048 else if c \<le> 400 then 4096
                       else if c \<le> 800 then 8192 else 16384),
          memory_gb = of_int (2 * (if c \<le> 100 then 1024 else if c \<le> 200 then 2048
                       else if c \<le> 400 then 4096 else if c \<le> 800 then 8192 else 16384)) / 1024,
          memory_mb = 2 * (if c \<le> 100 then 1024 else if c \<le> 200 then 2048 else if c \<le> 400 then 4096
                       else if c \<le> 800 then 8192 else 16384),
          desired_count = 1,
          redis_node_type = select_redis_node_type c,
          redis_replica_count = 0,
          efs_performance_mode = ''generalPurpose'',
          nat_gateway_count = 1,
          enable_global_accelerator = (c \<ge> 1000)\<rparr>"
proof -
  show le: "c \<le> 1600"
  proof (rule ccontr)
    assume "\<not> c \<le> 1600"
    then have "1600 < c" by simp
    from calculate_resources_unsupported[OF this] assms show False by simp
  qed
  show "r = \<lparr>cpu_vcpu = max 1 (- (- c div 100)),
          cpu_units = (if c \<le> 100 then 1024 else if c \<le> 200 then 2048 else if c \<le> 400 then 4096
                       else if c \<le> 800 then 8192 else 16384),
          memory_gb = of_int (2 * (if c \<le> 100 then 1024 else if c \<le> 200 then 2048
                       else if c \<le> 400 then 4096 else if c \<le> 800 then 8192 else 16384)) / 1024,
          memory_mb = 2 * (if c \<le> 100 then 1024 else if c \<le> 200 then 2048 else if c \<le> 400 then 4096
                       else if c \<le> 800 then 8192 else 16384),
          desired_count = 1,
          redis_node_type = select_redis_node_type c,
          redis_replica_count = 0,
          efs_performance_mode = ''generalPurpose'',
          nat_gateway_count = 1,
          enable_global_accelerator = (c \<ge> 1000)\<rparr>"
  proof (cases "0 < c")
    case True
    then have "- (2 ^ 53) < c" by simp
    from calculate_resources_supported[OF this le] assms show ?thesis by simp
  next
    case False
    then have c0: "c \<le> 0" by simp
    have "max 1 (- (- c div 100)) = 1" using c0 by linarith
    with calculate_resources_nonpos[OF c0] assms c0 show ?thesis
      by (auto simp: select_redis_node_type_def)
  qed
qed

lemma calculate_resources_returns_iff:
  assumes "- (2 ^ 53) < c"
  shows "(\<exists>r. calculate_resources c = Inr r) \<longleftrightarrow> c \<le> 1600"
  using calculate_resources_Inr(1)[of c] calculate_resources_supported[OF assms] by blast

lemma ceil_div_100: "c \<le> 100 * (- (- c div 100))" "100 * (- (- c div 100)) < c + 100" for c :: int
  by presburger+

lemma ceil_div_50: "c \<le> 50 * (- (- c div 50))" "50 * (- (- c div 50)) < c + 50" for c :: int
  by presburger+

lemma cpu_units_smallest_option:
  assumes "calculate_resources c = Inr r"
  shows "cpu_vcpu r = max 1 (- (- c div 100))"
    and "cpu_units r \<in> set CPU_OPTIONS"
    and "cpu_vcpu r * 1024 \<le> cpu_units r"
    and "\<forall>t \<in> set CPU_OPTIONS. cpu_vcpu r * 1024 \<le> t \<longrightarrow> cpu_units r \<le> t"
proof -
  note r = calculate_resources_Inr(2)[OF assms]
  note le = calculate_resources_Inr(1)[OF assms]
  show "cpu_vcpu r = max 1 (- (- c div 100))" by (subst r) simp
  show "cpu_units r \<in> set CPU_OPTIONS" by (subst r) (simp add: CPU_OPTIONS_def)
  have v: "cpu_vcpu r = max 1 (- (- c div 100))" by (subst r) simp
  have u: "cpu_units r = (if c \<le> 100 then 1024 else if c \<le> 200 then 2048 else if c \<le> 400 then 4096
                       else if c \<le> 800 then 8192 else 16384)" by (subst r) simp
  define w where "w = - (- c div 100)"
  have w: "c \<le> 100 * w" "100 * w < c + 100" unfolding w_def by (rule ceil_div_100)+
  show "cpu_vcpu r * 1024 \<le> cpu_units r"
    unfolding v u w_def[symmetric] using le w by auto
  show "\<forall>t \<in> set CPU_OPTIONS. cpu_vcpu r * 1024 \<le> t \<longrightarrow> cpu_units r \<le> t"
    unfolding v u CPU_OPTIONS_def w_def[symmetric] using le w by auto
qed

lemma memory_within_tier_range:
  assumes "calculate_resources c = Inr r"
  shows "\<exists>mn mx. getitem CPU_MEMORY_MIN (cpu_units r) = Inr mn \<and>
                 getitem CPU_MEMORY_MAX (cpu_units r) = Inr mx \<and>
                 memory_mb r = max mn (min (max 2 (- (- c div 50)) * 1024) mx) \<and>
                 mn \<le> memory_mb r \<and> memory_mb r \<le> mx \<and>
                 memory_gb r = of_int (memory_mb r) / 1024"
proof -
  note r = calculate_resources_Inr(2)[OF assms]
  note le = calculate_resources_Inr(1)[OF assms]
  have u: "cpu_units r = (if c \<le> 100 then 1024 else if c \<le> 200 then 2048 else if c \<le> 400 then 4096
                       else if c \<le> 800 then 8192 else 16384)" by (subst r) simp
  have m: "memory_mb r = 2 * cpu_units r" by (subst (1 2) r) simp
  have g: "memory_gb r = of_int (memory_mb r) / 1024" by (subst (1 2) r) simp
  define w where "w = - (- c div 50)"
  have w: "c \<le> 50 * w" "50 * w < c + 50" unfolding w_def by (rule ceil_div_50)+
  have b: "max 2 (- (- c div 50)) * 1024 \<le> 2 * cpu_units r"
    unfolding u w_def[symmetric] using le w by auto
  have mn: "getitem CPU_MEMORY_MIN (cpu_units r) = Inr (2 * cpu_units r)"
    unfolding u by (simp add: getitem_def CPU_MEMORY_MIN_def)
  have "\<exists>mx. getitem CPU_MEMORY_MAX (cpu_units r) = Inr mx \<and> 2 * cpu_units r \<le> mx"
    unfolding u by (simp add: getitem_def CPU_MEMORY_MAX_def)
  then obtain mx where mx: "getitem CPU_MEMORY_MAX (cpu_units r) = Inr mx" "2 * cpu_units r \<le> mx"
    by blast
  have "memory_mb r = max (2 * cpu_units r) (min (max 2 (- (- c div 50)) * 1024) mx)"
    using b mx(2) m by simp
  with mn mx m g show ?thesis by auto
qed

lemma sizing_monotone_where_defined:
  assumes "a \<le> b" "calculate_resources a = Inr ra" "calculate_resources b = Inr rb"
  shows "cpu_units ra \<le> cpu_units rb" "memory_mb ra \<le> memory_mb rb"
    "desired_count ra \<le> desired_count rb" "nat_gateway_count ra \<le> nat_gateway_count rb"
    "redis_replica_count ra \<le> redis_replica_count rb"
proof -
  note ra = calculate_resources_Inr(2)[OF assms(2)]
  note rb = calculate_resources_Inr(2)[OF assms(3)]
  have ua: "cpu_units ra = (if a \<le> 100 then 1024 else if a \<le> 200 then 2048 else if a \<le> 400 then 4096
                       else if a \<le> 800 then 8192 else 16384)" by (subst ra) simp
  have ub: "cpu_units rb = (if b \<le> 100 then 1024 else if b \<le> 200 then 2048 else if b \<le> 400 then 4096
                       else if b \<le> 800 then 8192 else 16384)" by (subst rb) simp
  show u: "cpu_units ra \<le> cpu_units rb" unfolding ua ub using assms(1) by simp
  have "memory_mb ra = 2 * cpu_units ra" by (subst (1 2) ra) simp
  moreover have "memory_mb rb = 2 * cpu_units rb" by (subst (1 2) rb) simp
  ultimately show "memory_mb ra \<le> memory_mb rb" using u by simp
  have "desired_count ra = 1" by (subst ra) simp
  moreover have "desired_count rb = 1" by (subst rb) simp
  ultimately show "desired_count ra \<le> desired_count rb" by simp
  have "nat_gateway_count ra = 1" by (subst ra) simp
  moreover have "nat_gateway_count rb = 1" by (subst rb) simp
  ultimately show "nat_gateway_count ra \<le> nat_gateway_count rb" by simp
  have "redis_replica_count ra = 0" by (subst ra) simp
  moreover have "redis_replica_count rb = 0" by (subst rb) simp
  ultimately show "redis_replica_count ra \<le> redis_replica_count rb" by simp
qed

lemma redis_tier_where_defined:
  assumes "calculate_resources c = Inr r"
  shows "redis_node_type r = (if c \<le> 500 then ''cache.t3.micro'' else ''cache.t3.small'')"
proof -
  have "redis_node_type r = select_redis_node_type c"
    by (subst calculate_resources_Inr(2)[OF assms]) simp
  then show ?thesis using calculate_resources_Inr(1)[OF assms]
    by (simp add: select_redis_node_type_def)
qed

lemma calculate_resources_1600:
  "calculate_resources 1600 =
     Inr \<lparr>cpu_vcpu = 16, cpu_units = 16384, memory_gb = 32, memory_mb = 32768,
          desired_count = 1, redis_node_type = ''cache.t3.small'',
          redis_replica_count = 0, efs_performance_mode = ''generalPurpose'',
          nat_gateway_count = 1, enable_global_accelerator = True\<rparr>"
  using calculate_resources_supported[of 1600] by (simp add: select_redis_node_type_def)

lemma calculate_resources_500:
  "calculate_resources 500 =
     Inr \<lparr>cpu_vcpu = 5, cpu_units = 8192, memory_gb = 16, memory_mb = 16384,
          desired_count = 1, redis_node_type = ''cache.t3.micro'',
          redis_replica_count = 0, efs_performance_mode = ''generalPurpose'',
          nat_gateway_count = 1, enable_global_accelerator = False\<rparr>"
  using calculate_resources_supported[of 500] by (simp add: select_redis_node_type_def)

section \<open>Costs are non-negative\<close>







text \<open>
  The breakdown for capacity 500, computed in the model: 199.67 for compute, 12.41 for the
  cache, 30.0 for storage, 32.4 for the NAT gateway, 16.2 for the load balancer, nothing for
  the accelerator, 290.68 in total, each as the float nearest to the decimal.
\<close>

lemma calculate_costs_500:
  "calculate_costs \<lparr>cpu_vcpu = 5, cpu_units = 8192, memory_gb = 16, memory_mb = 16384,
          desired_count = 1, redis_node_type = ''cache.t3.micro'',
          redis_replica_count = 0, efs_performance_mode = ''generalPurpose'',
          nat_gateway_count = 1, enable_global_accelerator = False\<rparr> =
   \<lparr>ecs = fl (19967 / 100), redis = fl (1241 / 100), efs = 30, nat_gateways = fl (324 / 10),
    alb = fl (162 / 10), accelerator = 0, total = fl (29068 / 100)\<rparr>"
  by code_simp

lemma select_redis_node_type_key:
  "select_redis_node_type c \<in> fst ` set REDIS_HOURLY_PRICING"
  by (simp add: select_redis_node_type_def REDIS_HOURLY_PRICING_def)

section \<open>Reading the command line\<close>

lemma py_int_1601: "py_int ''1601'' = Some 1601"
  by (simp add: py_int_def strip_def is_space_def digit_value_def)




text \<open>
  On an accepted capacity \<open>main\<close> prints its result and ends with status 0 up to 1600, and
  ends with an uncaught \<open>ValueError\<close> above.
\<close>

lemma main_valid_capacity:
  assumes "2 \<le> length argv" "py_int (argv ! 1) = Some n" "100 \<le> n" "n \<le> 50000"
  shows "n \<le> 1600 \<Longrightarrow> exit_code (main argv) = 0 \<and> (\<exists>m. printed (main argv) = [m] \<and> is_result m)"
    and "1600 < n \<Longrightarrow> main argv = Uncaught ValueError"
proof -
  assume le: "n \<le> 1600"
  have "- (2 ^ 53) < n" using assms(3) by simp
  from calculate_resources_supported[OF this le] obtain r where "calculate_resources n = Inr r"
    by blast
  then show "exit_code (main argv) = 0 \<and> (\<exists>m. printed (main argv) = [m] \<and> is_result m)"
    using assms by (simp add: main_def Let_def)
next
  assume gt: "1600 < n"
  have "n < 2 ^ 53" using assms(4) by simp
  from calculate_resources_unsupported_small[OF gt this] show "main argv = Uncaught ValueError"
    using assms by (simp add: main_def Let_def)
qed

section \<open>The claims\<close>

text \<open>
  C1.  Claimed: for every capacity in [100, 50000] sizing and costing complete without an
  internal error, the command line tool prints its report or JSON document and exits with
  status 0, and \<open>min\<close> is never applied to an empty list.  The run with the argument
  \<open>1601\<close>, a capacity that \<open>main\<close> accepts, does not: \<open>calculate_resources\<close> asks for 17 vCPU,
  no CPU option is large enough, \<open>min\<close> of the empty list raises \<open>ValueError\<close>, nothing catches
  it, nothing is printed and the exit status is 1.
\<close>

theorem main_crashes_at_1601:
  "main [''calculate-cost.py'', ''1601''] = Uncaught ValueError \<and>
   exit_code (main [''calculate-cost.py'', ''1601'']) = 1 \<and>
   printed (main [''calculate-cost.py'', ''1601'']) = []"
  using calculate_resources_unsupported_small[of 1601]
  by (simp add: main_def py_int_1601)

text \<open>
  C2.  Claimed: for every capacity in [100, 50000] \<open>calculate_resources\<close> returns
  \<open>cpu_vcpu = max(1, ceil(capacity / 100))\<close> and, as \<open>cpu_units\<close>, the smallest member of
  \<open>CPU_OPTIONS\<close> that is at least \<open>cpu_vcpu * 1024\<close>.  At capacity 1601 nothing is returned:
  the call raises \<open>ValueError\<close>.  (Lemma \<open>cpu_units_smallest_option\<close> shows the stated
  values wherever the function does return, that is up to capacity 1600.)
\<close>

theorem calculate_resources_1601_raises:
  "calculate_resources 1601 = Inl ValueError"
  by (rule calculate_resources_unsupported_small) simp_all

text \<open>
  C3.  Claimed: for every capacity in [100, 50000] the Redis node type follows the six bands,
  in particular at the boundary capacities 2000, 2001, 5000, 5001, 10000, 10001, 20000 and
  20001.  At each of these the call raises \<open>ValueError\<close> before the \<open>if\<close>/\<open>elif\<close> chain is
  reached, so no node type is selected.  (Lemma \<open>redis_tier_where_defined\<close>: where the
  function returns, only the first two bands occur.)
\<close>

theorem redis_boundaries_above_1600_raise:
  "calculate_resources 2000 = Inl ValueError \<and> calculate_resources 2001 = Inl ValueError \<and>
   calculate_resources 5000 = Inl ValueError \<and> calculate_resources 5001 = Inl ValueError \<and>
   calculate_resources 10000 = Inl ValueError \<and> calculate_resources 10001 = Inl ValueError \<and>
   calculate_resources 20000 = Inl ValueError \<and> calculate_resources 20001 = Inl ValueError"
  by (simp add: calculate_resources_unsupported_small)

text \<open>
  C4.  Claimed: for every capacity in [100, 50000] the requested memory is clamped into the
  range of the selected tier and \<open>memory_mb\<close> lies in that range.  At capacity 3200, where the
  request of 64 GB would exceed every maximum of the table, no tier is selected and the call
  raises \<open>ValueError\<close>.  (Lemma \<open>memory_within_tier_range\<close> shows the clamping wherever the
  function returns.)
\<close>

theorem calculate_resources_3200_raises:
  "calculate_resources 3200 = Inl ValueError"
  by (rule calculate_resources_unsupported_small) simp_all

text \<open>
  C5.  Claimed: for capacities \<open>a \<le> b\<close> in [100, 50000] the five sizing fields for \<open>b\<close> are at
  least those for \<open>a\<close>.  For \<open>a = 1600\<close> and \<open>b = 1601\<close> there is a configuration for \<open>a\<close> and
  none for \<open>b\<close>, so the fields cannot be compared.  (Lemma \<open>sizing_monotone_where_defined\<close>
  shows monotonicity between any two capacities for which the function returns.)
\<close>

theorem no_configuration_after_1600:
  "calculate_resources 1600 =
     Inr \<lparr>cpu_vcpu = 16, cpu_units = 16384, memory_gb = 32, memory_mb = 32768,
          desired_count = 1, redis_node_type = ''cache.t3.small'',
          redis_replica_count = 0, efs_performance_mode = ''generalPurpose'',
          nat_gateway_count = 1, enable_global_accelerator = True\<rparr> \<and>
   calculate_resources 1601 = Inl ValueError"
  using calculate_resources_1600 calculate_resources_unsupported_small[of 1601] by simp





text \<open>
  C8.  Claimed: capacity 50000 gives \<open>desired_count = 10\<close>, node type \<open>cache.r6g.xlarge\<close>, 9
  replicas, 2 NAT gateways and \<open>maxIO\<close>.  The call needs 500 vCPU, that is 512000 CPU units,
  and raises \<open>ValueError\<close>; no configuration is returned.
\<close>

theorem calculate_resources_50000_raises:
  "calculate_resources 50000 = Inl ValueError"
  by (rule calculate_resources_unsupported_small) simp_all



text \<open>
  C10.  For every capacity on which \<open>calculate_resources\<close> returns, the selected
  \<open>redis_node_type\<close> is a key of \<open>REDIS_HOURLY_PRICING\<close>, so the lookup in \<open>calculate_costs\<close>
  finds a price and its result does not depend on the default value of \<open>get\<close>.
\<close>

theorem redis_node_type_is_priced:
  assumes "calculate_resources c = Inr r"
  shows "redis_node_type r \<in> fst ` set REDIS_HOURLY_PRICING \<and>
         map_of REDIS_HOURLY_PRICING (redis_node_type r) \<noteq> None \<and>
         (\<forall>d. get_default REDIS_HOURLY_PRICING (redis_node_type r) d = redis_hourly r)"
proof -
  have "redis_node_type r = select_redis_node_type c"
    by (subst calculate_resources_Inr(2)[OF assms]) simp
  then have k: "redis_node_type r \<in> fst ` set REDIS_HOURLY_PRICING"
    by (simp only: select_redis_node_type_key)
  then have m: "map_of REDIS_HOURLY_PRICING (redis_node_type r) \<noteq> None"
    by (simp add: map_of_eq_None_iff)
  then obtain p where "map_of REDIS_HOURLY_PRICING (redis_node_type r) = Some p" by blast
  then have "\<forall>d. get_default REDIS_HOURLY_PRICING (redis_node_type r) d = redis_hourly r"
    by (simp add: get_default_def redis_hourly_def)
  with k m show ?thesis by blast
qed

theorem redis_node_type_is_priced_witness:
  "calculate_resources 500 =
     Inr \<lparr>cpu_vcpu = 5, cpu_units = 8192, memory_gb = 16, memory_mb = 16384,
          desired_count = 1, redis_node_type = ''cache.t3.micro'',
          redis_replica_count = 0, efs_performance_mode = ''generalPurpose'',
          nat_gateway_count = 1, enable_global_accelerator = False\<rparr> \<and>
   ''cache.t3.micro'' \<in> fst ` set REDIS_HOURLY_PRICING \<and>
   map_of REDIS_HOURLY_PRICING ''cache.t3.micro'' \<noteq> None"
  using redis_node_type_is_priced[OF calculate_resources_500] calculate_resources_500 by simp

end
